theory Spec2Isabelle
  imports Main "HOL-Library.AList"
begin

section \<open>Strings\<close>

text \<open>
  A Python \<open>str\<close> is a sequence of Unicode code points, so a string of the program is a
  list of code points. The literals of the source are written with \<open>str\<close>.
\<close>

type_synonym pystr = "nat list"

definition str :: "string \<Rightarrow> pystr" where
  "str s = map of_char s"

definition isspace :: "nat \<Rightarrow> bool" where
  \<comment> \<open>the code points \<open>str.strip()\<close> removes: Python's Unicode whitespace\<close>
  "isspace c \<longleftrightarrow>
     c \<in> set [9, 10, 11, 12, 13, 28, 29, 30, 31, 32, 133, 160, 5760,
              8232, 8233, 8239, 8287, 12288] \<or> (8192 \<le> c \<and> c \<le> 8202)"

definition strip_with :: "(nat \<Rightarrow> bool) \<Rightarrow> pystr \<Rightarrow> pystr" where
  "strip_with P s = rev (dropWhile P (rev (dropWhile P s)))"

definition strip :: "pystr \<Rightarrow> pystr" where
  \<comment> \<open>\<open>s.strip()\<close>\<close>
  "strip s = strip_with isspace s"

definition strip_chars :: "pystr \<Rightarrow> pystr \<Rightarrow> pystr" where
  \<comment> \<open>\<open>s.strip(chars)\<close>: every leading and trailing code point that occurs in \<open>chars\<close>\<close>
  "strip_chars chars s = strip_with (\<lambda>c. c \<in> set chars) s"

definition replace_char :: "nat \<Rightarrow> nat \<Rightarrow> pystr \<Rightarrow> pystr" where
  \<comment> \<open>\<open>s.replace(a, b)\<close> for one-character \<open>a\<close> and \<open>b\<close>\<close>
  "replace_char a b s = map (\<lambda>c. if c = a then b else c) s"

subsection \<open>The three regular expressions\<close>

text \<open>
  \<open>re.search\<close> returns the leftmost match. In \<open>lit(.+)\<close> the group is greedy and \<open>.\<close>
  matches every code point but the newline, so at the first position where \<open>lit\<close> stands
  before a code point other than a newline, the group is what follows up to the next newline.
  In \<open>lit(.+?)X\<close> the group is the shortest non-empty run without a newline that an
  \<open>X\<close> follows.
\<close>

definition startswith :: "pystr \<Rightarrow> pystr \<Rightarrow> bool" where
  "startswith s p \<longleftrightarrow> take (length p) s = p"

fun search_greedy :: "pystr \<Rightarrow> pystr \<Rightarrow> pystr option" where
  "search_greedy lit [] = None"
| "search_greedy lit (c # cs) =
     (let run = takeWhile (\<lambda>x. x \<noteq> 10) (drop (length lit) (c # cs))
      in if startswith (c # cs) lit \<and> run \<noteq> [] then Some run
         else search_greedy lit cs)"

fun search_lazy_X :: "pystr \<Rightarrow> pystr \<Rightarrow> pystr option" where
  "search_lazy_X lit [] = None"
| "search_lazy_X lit (c # cs) =
     (let run = takeWhile (\<lambda>x. x \<noteq> 10) (drop (length lit) (c # cs))
      in if startswith (c # cs) lit \<and> run \<noteq> [] \<and> 88 \<in> set (tl run)
         then Some (hd run # takeWhile (\<lambda>x. x \<noteq> 88) (tl run))
         else search_lazy_X lit cs)"

definition search_hyp :: "pystr \<Rightarrow> pystr option" where
  \<comment> \<open>\<open>re.search(r'_hyp(.+)', s)\<close>, group 1\<close>
  "search_hyp s = search_greedy (str ''_hyp'') s"

definition search_lblX :: "pystr \<Rightarrow> pystr option" where
  \<comment> \<open>\<open>re.search(r'_lbl(.+?)X', s)\<close>, group 1\<close>
  "search_lblX s = search_lazy_X (str ''_lbl'') s"

definition search_lbl :: "pystr \<Rightarrow> pystr option" where
  \<comment> \<open>\<open>re.search(r'_lbl(.+)', s)\<close>, group 1\<close>
  "search_lbl s = search_greedy (str ''_lbl'') s"

definition search_td :: "pystr \<Rightarrow> pystr option" where
  \<comment> \<open>\<open>re.search(r'_td(.+)', s)\<close>, group 1\<close>
  "search_td s = search_greedy (str ''_td'') s"

section \<open>The tree\<close>

text \<open>
  A node of the tree is a dictionary of string attributes (\<open>tag\<close>, \<open>id\<close>, \<open>href\<close>,
  \<open>src\<close>, \<open>text\<close>, \<open>tail\<close>) with a list of children. A node object also knows its
  parent; the visitors store node objects, so what they store is the node with its parent.
\<close>

datatype node = Node (attrs: "(pystr \<times> pystr) list") (children: "node list")

record node_obj =
  this :: node
  parent :: "node option"

datatype error = KeyError | IndexError | AttributeError

definition attr :: "node \<Rightarrow> string \<Rightarrow> pystr option" where
  \<comment> \<open>the dictionary lookup: \<open>None\<close> when \<open>key not in node\<close>, else \<open>node[key]\<close>\<close>
  "attr n k = map_of (attrs n) (str k)"

definition get_default :: "node \<Rightarrow> string \<Rightarrow> pystr \<Rightarrow> pystr" where
  \<comment> \<open>\<open>node.get(key, default)\<close>\<close>
  "get_default n k d = (case attr n k of None \<Rightarrow> d | Some v \<Rightarrow> v)"

section \<open>TextRenderer\<close>

record TextRenderer =
  buf :: pystr

definition TextRenderer_init :: TextRenderer where
  "TextRenderer_init = \<lparr>buf = []\<rparr>"

definition scrub_text :: "pystr \<Rightarrow> pystr" where
  "scrub_text text = strip (replace_char 160 32 text)"

definition buf_write :: "pystr \<Rightarrow> TextRenderer \<Rightarrow> TextRenderer" where
  \<comment> \<open>\<open>self.buf.write(s)\<close>\<close>
  "buf_write s r = r\<lparr>buf := buf r @ s\<rparr>"

text \<open>
  Modelled from the spec: the traversal of the \<open>visitors\<close> library, which is not part of
  the repository. \<open>generic_visit\<close> is a context manager: its first half runs, the
  children are visited in order, its second half runs, and the \<open>Continue\<close> it raises keeps
  the library from visiting the children a second time.
\<close>

fun generic_visit :: "node \<Rightarrow> TextRenderer \<Rightarrow> TextRenderer" where
  "generic_visit (Node a cs) r =
     (let r1 = (if buf r \<noteq> [] then buf_write (str '' '') r else r);
          r2 = buf_write (scrub_text (get_default (Node a cs) ''text'' [])) r1;
          r3 = fold generic_visit cs r2
      in buf_write (scrub_text (get_default (Node a cs) ''tail'' [])) r3)"

definition TextRenderer_finalize :: "TextRenderer \<Rightarrow> pystr" where
  "TextRenderer_finalize r = buf r"

definition render :: "node \<Rightarrow> pystr" where
  \<comment> \<open>the value of \<open>TextRenderer().visit(node)\<close>\<close>
  "render n = TextRenderer_finalize (generic_visit n TextRenderer_init)"

text \<open>
  The renderer objects of a run, to state what a call leaves behind: \<open>TextRenderer()\<close>
  allocates a new object, \<open>visit\<close> writes into the buffer of the object it is called on
  and returns \<open>finalize()\<close>.
\<close>

type_synonym renderers = "TextRenderer list"

definition TextRenderer_new :: "renderers \<Rightarrow> nat \<times> renderers" where
  "TextRenderer_new h = (length h, h @ [TextRenderer_init])"

definition TextRenderer_visit :: "nat \<Rightarrow> node \<Rightarrow> renderers \<Rightarrow> pystr \<times> renderers" where
  "TextRenderer_visit a n h =
     (let r = generic_visit n (h ! a) in (TextRenderer_finalize r, h[a := r]))"

definition render_call :: "node \<Rightarrow> renderers \<Rightarrow> pystr \<times> renderers" where
  \<comment> \<open>\<open>TextRenderer().visit(node)\<close> as a step on the renderer objects\<close>
  "render_call n h = (let (a, h1) = TextRenderer_new h in TextRenderer_visit a n h1)"

section \<open>DetailVisitor\<close>

text \<open>
  \<open>self.data\<close> is a \<open>defaultdict(dict)\<close>: slug to a dictionary with the keys
  \<open>label\<close>, \<open>node\<close> and \<open>url\<close>, each present or not. Its items are kept in
  insertion order, which is the order \<open>finalize\<close> iterates in.
\<close>

record field_data =
  label :: "pystr option"
  node :: "node_obj option"
  url :: "pystr option"

definition empty_dict :: field_data where
  "empty_dict = \<lparr>label = None, node = None, url = None\<rparr>"

type_synonym visitor_data = "(pystr \<times> field_data) list"

definition lookup :: "visitor_data \<Rightarrow> pystr \<Rightarrow> field_data" where
  \<comment> \<open>\<open>self.data[key]\<close>: a missing key gives the new empty dictionary\<close>
  "lookup vd key = (case map_of vd key of None \<Rightarrow> empty_dict | Some d \<Rightarrow> d)"

definition visit_a :: "node_obj \<Rightarrow> visitor_data \<Rightarrow> visitor_data" where
  "visit_a nd vd =
     (case attr (this nd) ''id'' of
        None \<Rightarrow> vd
      | Some ident \<Rightarrow>
         (case attr (this nd) ''href'' of
            None \<Rightarrow> vd
          | Some href \<Rightarrow>
             (case search_hyp ident of
                None \<Rightarrow> vd
              | Some key \<Rightarrow>
                 (let d = (lookup vd key)\<lparr>url := Some href, node := Some nd\<rparr>
                  in if label d = None
                     then AList.update key
                            (d\<lparr>label := Some (strip_chars (str '':'') (strip (render (this nd))))\<rparr>) vd
                     else AList.update key d vd))))"

definition visit_span :: "node_obj \<Rightarrow> visitor_data \<Rightarrow> error + visitor_data" where
  "visit_span nd vd =
     (case attr (this nd) ''id'' of
        None \<Rightarrow> Inr vd
      | Some ident \<Rightarrow>
         (case search_lblX ident of
            Some key \<Rightarrow>
             (case children (this nd) of
                [] \<Rightarrow> Inl IndexError
              | c # _ \<Rightarrow>
                 (case attr c ''text'' of
                    None \<Rightarrow> Inl KeyError
                  | Some t \<Rightarrow>
                     Inr (AList.update key
                            ((lookup vd key)\<lparr>label := Some (strip_chars (str '':'') (strip t))\<rparr>) vd)))
          | None \<Rightarrow>
             (case search_lbl ident of
                Some key \<Rightarrow> Inr (AList.update key ((lookup vd key)\<lparr>node := Some nd\<rparr>) vd)
              | None \<Rightarrow>
                 (case search_td ident of
                    Some key \<Rightarrow> Inr (AList.update key ((lookup vd key)\<lparr>node := Some nd\<rparr>) vd)
                  | None \<Rightarrow> Inr vd))))"

definition visit_td :: "node_obj \<Rightarrow> visitor_data \<Rightarrow> visitor_data" where
  "visit_td nd vd =
     (case attr (this nd) ''id'' of
        None \<Rightarrow> vd
      | Some ident \<Rightarrow>
         (case search_td ident of
            None \<Rightarrow> vd
          | Some key \<Rightarrow> AList.update key ((lookup vd key)\<lparr>node := Some nd\<rparr>) vd))"

text \<open>
  Modelled from the spec: the dispatch and the traversal of the \<open>visitors\<close> library, which
  is not part of the repository. The method is chosen by \<open>get_nodekey\<close>, that is by
  \<open>node['tag']\<close>; a tag with no method has no effect; the methods run in pre-order, and
  an exception ends the traversal.
\<close>

definition visit_node :: "node_obj \<Rightarrow> visitor_data \<Rightarrow> error + visitor_data" where
  "visit_node nd vd =
     (case attr (this nd) ''tag'' of
        None \<Rightarrow> Inl KeyError
      | Some t \<Rightarrow>
         if t = str ''a'' then Inr (visit_a nd vd)
         else if t = str ''span'' then visit_span nd vd
         else if t = str ''td'' then Inr (visit_td nd vd)
         else Inr vd)"

fun preorder :: "node option \<Rightarrow> node \<Rightarrow> node_obj list" where
  "preorder par (Node a cs) =
     \<lparr>this = Node a cs, parent = par\<rparr> # concat (map (preorder (Some (Node a cs))) cs)"

fun visit_seq :: "node_obj list \<Rightarrow> visitor_data \<Rightarrow> error + visitor_data" where
  "visit_seq [] vd = Inr vd"
| "visit_seq (nd # nds) vd =
     (case visit_node nd vd of Inl e \<Rightarrow> Inl e | Inr vd' \<Rightarrow> visit_seq nds vd')"

subsection \<open>finalize\<close>

text \<open>
  A \<open>DetailField\<close> object wraps one dictionary of \<open>self.data\<close>. \<open>finalize\<close> creates one
  object for each item; the objects are kept in the order of their creation and the result
  dictionary maps a key to the position of its object, so that two keys of the same object
  are two keys with the same position.
\<close>

record DetailField =
  data :: field_data

type_synonym fields = "DetailField list"

fun finalize_loop ::
  "visitor_data \<Rightarrow> fields \<Rightarrow> (pystr \<rightharpoonup> nat) \<Rightarrow> fields \<times> (pystr \<rightharpoonup> nat)" where
  "finalize_loop [] objs newdata = (objs, newdata)"
| "finalize_loop ((id_attr, d) # items) objs newdata =
     (let alias = strip_chars (str '':'') (case label d of None \<Rightarrow> id_attr | Some l \<Rightarrow> l);
          val = length objs;
          newdata1 = newdata(alias \<mapsto> val)
      in finalize_loop items (objs @ [\<lparr>data = d\<rparr>])
           (if alias \<noteq> id_attr then newdata1(id_attr \<mapsto> val) else newdata1))"

definition finalize :: "visitor_data \<Rightarrow> fields \<times> (pystr \<rightharpoonup> nat)" where
  "finalize vd = finalize_loop vd [] Map.empty"

definition DetailVisitor_visit :: "node \<Rightarrow> error + fields \<times> (pystr \<rightharpoonup> nat)" where
  \<comment> \<open>\<open>DetailVisitor(cfg).visit(G)\<close>\<close>
  "DetailVisitor_visit root =
     (case visit_seq (preorder None root) [] of
        Inl e \<Rightarrow> Inl e
      | Inr vd \<Rightarrow> Inr (finalize vd))"

section \<open>DetailField\<close>

definition DetailField_node :: "DetailField \<Rightarrow> error + node_obj" where
  \<comment> \<open>the property \<open>node\<close>: \<open>self.data['node']\<close>\<close>
  "DetailField_node f = (case node (data f) of None \<Rightarrow> Inl KeyError | Some nd \<Rightarrow> Inr nd)"

definition is_blank_placeholder :: "pystr \<Rightarrow> bool option" where
  \<comment> \<open>\<open>_is_blank_placeholder\<close>: \<open>True\<close> or, with no \<open>return\<close> reached, \<open>None\<close>\<close>
  "is_blank_placeholder text = (if text = str ''Not available'' then Some True else None)"

definition truthy :: "bool option \<Rightarrow> bool" where
  "truthy v \<longleftrightarrow> v = Some True"

definition get_text :: "DetailField \<Rightarrow> error + pystr option" where
  "get_text f =
     (case DetailField_node f of
        Inl e \<Rightarrow> Inl e
      | Inr nd \<Rightarrow>
         (let text = render (this nd)
          in if \<not> truthy (is_blank_placeholder text) then Inr (Some text) else Inr None))"

fun get_url_loop :: "node list \<Rightarrow> pystr option" where
  "get_url_loop [] = None"
| "get_url_loop (descendant # ds) =
     (case attr descendant ''href'' of Some h \<Rightarrow> Some h | None \<Rightarrow> get_url_loop ds)"

text \<open>
  \<open>find_all\<close> stands for the query of the tree library, which is not part of the repository: the list
  of nodes that \<open>node.find()\<close> iterates over. The accessors take it as a parameter.
  \<open>depth_first\<close> is the node itself and its descendants in document order.
\<close>

fun depth_first :: "node \<Rightarrow> node list" where
  "depth_first (Node a cs) = Node a cs # concat (map depth_first cs)"

definition get_url :: "(node \<Rightarrow> node list) \<Rightarrow> DetailField \<Rightarrow> error + pystr option" where
  "get_url find_all f =
     (case DetailField_node f of
        Inl e \<Rightarrow> Inl e
      | Inr nd \<Rightarrow> Inr (get_url_loop (find_all (this nd))))"

text \<open>
  Modelled from the spec: the attribute \<open>text\<close> that \<open>is_blank\<close> reads. \<open>DetailField\<close> does
  not define it, and its base class \<open>FieldAccessor\<close> (\<open>legistar/base/field.py\<close>) is not among
  the sources; the spec has blankness computed from a fresh render of the wrapped node's text.
\<close>

definition DetailField_text :: "DetailField \<Rightarrow> error + pystr" where
  "DetailField_text f =
     (case DetailField_node f of Inl e \<Rightarrow> Inl e | Inr nd \<Rightarrow> Inr (render (this nd)))"

definition is_blank :: "DetailField \<Rightarrow> error + bool option" where
  "is_blank f =
     (case DetailField_text f of
        Inl e \<Rightarrow> Inl e
      | Inr text \<Rightarrow> if truthy (is_blank_placeholder text) then Inr (Some True) else Inr None)"

text \<open>
  \<open>get_mimetype\<close> reads three things from outside the repository: \<open>find_all\<close> as above,
  the path of a URL as \<open>urlparse\<close> gives it, and the configured \<open>MIMETYPE_GIF_PDF\<close>.
  \<open>filter(tag='img')\<close> keeps the nodes whose tag is \<open>img\<close>. The dictionary
  \<open>mimetypes\<close> has one key, so the lookup of any other path raises.
\<close>

record config =
  MIMETYPE_GIF_PDF :: pystr

fun get_mimetype_loop :: "(pystr \<Rightarrow> pystr) \<Rightarrow> config \<Rightarrow> node list \<Rightarrow> error + pystr option" where
  "get_mimetype_loop urlpath cfg [] = Inr None"
| "get_mimetype_loop urlpath cfg (descendant # ds) =
     (case attr descendant ''src'' of
        None \<Rightarrow> get_mimetype_loop urlpath cfg ds
      | Some gif_url \<Rightarrow>
         (let path = urlpath gif_url
          in if path = MIMETYPE_GIF_PDF cfg then Inr (Some (str ''application/pdf''))
             else Inl KeyError))"

definition get_mimetype ::
  "(node \<Rightarrow> node list) \<Rightarrow> (pystr \<Rightarrow> pystr) \<Rightarrow> config \<Rightarrow> DetailField \<Rightarrow> error + pystr option" where
  "get_mimetype find_all urlpath cfg f =
     (case DetailField_node f of
        Inl e \<Rightarrow> Inl e
      | Inr nd \<Rightarrow>
         (case parent nd of
            None \<Rightarrow> Inl AttributeError
          | Some p \<Rightarrow>
             get_mimetype_loop urlpath cfg
               (filter (\<lambda>d. attr d ''tag'' = Some (str ''img'')) (find_all p))))"

section \<open>Notions used in the statements\<close>

text \<open>
  What a leaf node adds to the buffer after its separator, and the joining of fragments with
  single spaces.
\<close>

definition fragment :: "node \<Rightarrow> pystr" where
  "fragment n = scrub_text (get_default n ''text'' []) @ scrub_text (get_default n ''tail'' [])"

fun join_space :: "pystr list \<Rightarrow> pystr" where
  "join_space [] = []"
| "join_space [s] = s"
| "join_space (s # t # ts) = s @ str '' '' @ join_space (t # ts)"

text \<open>
  What the visit of a node adds to a buffer that already holds content: one space, the
  scrubbed text of the node, the same for each child in turn, and the scrubbed tail of the
  node with no space before it.
\<close>

fun spaced :: "node \<Rightarrow> pystr" where
  "spaced (Node a cs) =
     str '' '' @ scrub_text (get_default (Node a cs) ''text'' []) @ concat (map spaced cs)
       @ scrub_text (get_default (Node a cs) ''tail'' [])"

text \<open>
  The spec's words for the label of an anchor, "stripped of a trailing colon", read as they
  stand: one colon at the end is removed. It is compared with what \<open>strip(':')\<close> does.
\<close>

definition strip_trailing_colon :: "pystr \<Rightarrow> pystr" where
  "strip_trailing_colon s = (if s \<noteq> [] \<and> last s = 58 then butlast s else s)"

text \<open>
  The two keys one item of \<open>self.data\<close> is stored under by \<open>finalize\<close>: its \<open>alias\<close> and
  its slug.
\<close>

definition alias_of :: "pystr \<times> field_data \<Rightarrow> pystr" where
  "alias_of item =
     strip_chars (str '':'') (case label (snd item) of None \<Rightarrow> fst item | Some l \<Rightarrow> l)"

definition written :: "pystr \<times> field_data \<Rightarrow> pystr \<Rightarrow> bool" where
  "written item k \<longleftrightarrow> k = alias_of item \<or> k = fst item"

text \<open>
  The visits that assign \<open>node\<close> for the slug \<open>k\<close> (an anchor with \<open>id\<close> and \<open>href\<close>
  matching \<open>_hyp\<close>; a span that is no label span and matches \<open>_lbl\<close> or else \<open>_td\<close>; a
  cell matching \<open>_td\<close>), the spans that assign \<open>label\<close> for \<open>k\<close>, and the label such a
  span assigns.
\<close>

definition sets_node :: "pystr \<Rightarrow> node_obj \<Rightarrow> bool" where
  "sets_node k nd \<longleftrightarrow>
     (case attr (this nd) ''tag'' of
        None \<Rightarrow> False
      | Some t \<Rightarrow>
         (case attr (this nd) ''id'' of
            None \<Rightarrow> False
          | Some ident \<Rightarrow>
             if t = str ''a'' then attr (this nd) ''href'' \<noteq> None \<and> search_hyp ident = Some k
             else if t = str ''span''
               then search_lblX ident = None \<and>
                    (case search_lbl ident of
                       Some key \<Rightarrow> key = k
                     | None \<Rightarrow> search_td ident = Some k)
             else if t = str ''td'' then search_td ident = Some k
             else False))"

definition is_label_span :: "pystr \<Rightarrow> node_obj \<Rightarrow> bool" where
  "is_label_span k nd \<longleftrightarrow>
     attr (this nd) ''tag'' = Some (str ''span'') \<and>
     (case attr (this nd) ''id'' of None \<Rightarrow> False | Some ident \<Rightarrow> search_lblX ident = Some k)"

definition first_child_label :: "node_obj \<Rightarrow> pystr" where
  "first_child_label nd =
     (case children (this nd) of
        [] \<Rightarrow> []
      | c # _ \<Rightarrow> strip_chars (str '':'') (strip (get_default c ''text'' [])))"

section \<open>Example pages\<close>

definition field_of :: "node \<Rightarrow> DetailField" where
  "field_of n = \<lparr>data = \<lparr>label = None, node = Some \<lparr>this = n, parent = None\<rparr>, url = None\<rparr>\<rparr>"

definition ex_label_span :: node where
  "ex_label_span =
     Node [(str ''tag'', str ''span''), (str ''id'', str ''ctl00_lblStatusX'')]
          [Node [(str ''tag'', str ''b''), (str ''text'', str '' Status: '')] []]"

definition ex_blank_span :: node where
  "ex_blank_span =
     Node [(str ''tag'', str ''span''), (str ''id'', str ''ctl00_lblStatus''),
           (str ''text'', str ''Not available'')] []"

definition ex_value_span :: node where
  "ex_value_span =
     Node [(str ''tag'', str ''span''), (str ''id'', str ''ctl00_lblStatus''),
           (str ''text'', str '' Approved '')] []"

definition ex_label_only :: node where
  "ex_label_only = Node [(str ''tag'', str ''div'')] [ex_label_span]"

definition ex_anchor :: node where
  "ex_anchor =
     Node [(str ''tag'', str ''a''), (str ''id'', str ''ctl00_hypAgenda''),
           (str ''href'', str ''/agenda.pdf''), (str ''text'', str ''View Agenda'')] []"

definition ex_img :: node where
  "ex_img = Node [(str ''tag'', str ''img''), (str ''src'', str ''/Images/PDF.gif'')] []"

definition ex_cell :: node where
  "ex_cell = Node [(str ''tag'', str ''td'')] [ex_anchor, ex_img]"

definition ex_cfg :: config where
  "ex_cfg = \<lparr>MIMETYPE_GIF_PDF = str ''/Images/PDF.gif''\<rparr>"

definition ex_anchor_field :: DetailField where
  "ex_anchor_field =
     \<lparr>data = \<lparr>label = Some (str ''View Agenda''),
              node = Some \<lparr>this = ex_anchor, parent = Some ex_cell\<rparr>,
              url = Some (str ''/agenda.pdf'')\<rparr>\<rparr>"

definition ex_childless_span :: node where
  "ex_childless_span =
     Node [(str ''tag'', str ''span''), (str ''id'', str ''ctl00_lblStatusX''),
           (str ''text'', str ''Status:'')] []"

definition ex_childless_page :: node where
  "ex_childless_page = Node [(str ''tag'', str ''div'')] [ex_childless_span]"

definition leaf :: "string \<Rightarrow> node" where
  "leaf t = Node [(str ''tag'', str ''b''), (str ''text'', str t)] []"

definition ex_gap_page :: node where
  "ex_gap_page = Node [(str ''tag'', str ''td'')] [leaf ''a'', leaf '''', leaf ''c'']"

definition ex_wrapper :: node where
  "ex_wrapper = Node [(str ''tag'', str ''span'')] [leaf ''x'']"

definition ex_colon_anchor :: node where
  "ex_colon_anchor =
     Node [(str ''tag'', str ''a''), (str ''id'', str ''ctl00_hypNotes''),
           (str ''href'', str ''/notes''), (str ''text'', str '':Notes'')] []"

definition ex_anchor_no_href :: node where
  "ex_anchor_no_href =
     Node [(str ''tag'', str ''a''), (str ''id'', str ''ctl00_hypAgenda''),
           (str ''text'', str ''View Agenda'')] []"

definition ex_same_label_page :: node where
  "ex_same_label_page =
     Node [(str ''tag'', str ''div'')]
       [Node [(str ''tag'', str ''span''), (str ''id'', str ''ctl00_lblNameX'')]
          [Node [(str ''tag'', str ''b''), (str ''text'', str ''Name:'')] []],
        Node [(str ''tag'', str ''span''), (str ''id'', str ''ctl00_lblName2X'')]
          [Node [(str ''tag'', str ''b''), (str ''text'', str ''Name:'')] []]]"

definition ex_status_items :: visitor_data where
  "ex_status_items =
     [(str ''Status'', \<lparr>label = Some (str ''Current status''), node = None, url = None\<rparr>)]"

definition ex_agenda_label :: node where
  "ex_agenda_label =
     Node [(str ''tag'', str ''span''), (str ''id'', str ''ctl00_lblAgendaX'')]
          [Node [(str ''tag'', str ''b''), (str ''text'', str ''Agenda:'')] []]"

definition ex_anchor_first_page :: node where
  "ex_anchor_first_page = Node [(str ''tag'', str ''td'')] [ex_anchor, ex_agenda_label]"

definition ex_old_label :: visitor_data where
  "ex_old_label = [(str ''Agenda'', \<lparr>label = Some (str ''Old''), node = None, url = None\<rparr>)]"

definition ex_new_label :: visitor_data where
  "ex_new_label = [(str ''Agenda'', \<lparr>label = Some (str ''Agenda''), node = None, url = None\<rparr>)]"

definition ex_with_anchor :: visitor_data where
  "ex_with_anchor =
     [(str ''Agenda'',
       \<lparr>label = Some (str ''Agenda''), node = Some \<lparr>this = ex_anchor, parent = None\<rparr>,
        url = Some (str ''/agenda.pdf'')\<rparr>)]"

section \<open>Evaluation on the examples\<close>

lemmas eval_defs = str_def attr_def get_default_def scrub_text_def strip_def strip_chars_def
  strip_with_def replace_char_def isspace_def buf_write_def TextRenderer_init_def
  TextRenderer_finalize_def render_def startswith_def search_hyp_def search_lblX_def
  search_lbl_def search_td_def

lemma render_ex_blank_span: "render ex_blank_span = str ''Not available''"
  by (simp add: ex_blank_span_def eval_defs)

lemma render_ex_value_span: "render ex_value_span = str ''Approved''"
  by (simp add: ex_value_span_def eval_defs)

lemma visit_ex_label_only:
  "visit_seq (preorder None ex_label_only) [] =
     Inr [(str ''Status'', \<lparr>label = Some (str ''Status''), node = None, url = None\<rparr>)]"
  by (simp add: ex_label_only_def ex_label_span_def visit_node_def visit_span_def lookup_def
        empty_dict_def eval_defs)

section \<open>The traversal as a sequence of visits\<close>

lemma visit_seq_append:
  "visit_seq (xs @ ys) vd =
     (case visit_seq xs vd of Inl e \<Rightarrow> Inl e | Inr vd' \<Rightarrow> visit_seq ys vd')"
  by (induction xs arbitrary: vd) (auto split: sum.splits)

lemma visit_seq_fails:
  assumes "\<And>v. isl (visit_node nd v)" and "nd \<in> set nds"
  shows "isl (visit_seq nds vd)"
  using assms(2)
proof (induction nds arbitrary: vd)
  case Nil
  then show ?case by simp
next
  case (Cons x xs)
  show ?case
  proof (cases "visit_node x vd")
    case (Inl e)
    then show ?thesis by simp
  next
    case (Inr vd')
    with assms(1) [of vd] have "x \<noteq> nd" by auto
    with Cons Inr show ?thesis by simp
  qed
qed

section \<open>The text renderer\<close>

lemma render_call_fresh: "fst (render_call n h) = render n"
  by (simp add: render_call_def TextRenderer_new_def TextRenderer_visit_def render_def Let_def)

text \<open>
  C4. Rendering is idempotent: a render call allocates its own renderer with an empty buffer,
  so a second render of the same node, run in the state the first one left behind, returns
  the same string as the first, and that string depends on the node alone.
\<close>

theorem render_idempotent:
  "fst (render_call n (snd (render_call n h))) = fst (render_call n h) \<and>
   fst (render_call n h) = render n"
  by (simp add: render_call_fresh)

text \<open>
  The fresh renderer is what the result rests on: a second \<open>visit\<close> on the same renderer
  object appends to the buffer of the first.
\<close>

lemma renderer_reused:
  "fst (TextRenderer_visit 0 ex_value_span [TextRenderer_init]) = str ''Approved'' \<and>
   fst (TextRenderer_visit 0 ex_value_span
          (snd (TextRenderer_visit 0 ex_value_span [TextRenderer_init])))
     = str ''Approved Approved''"
  by (simp add: TextRenderer_visit_def ex_value_span_def Let_def eval_defs)

section \<open>The field accessors\<close>

text \<open>
  C5. For a field whose record has a node, \<open>get_text()\<close> returns \<open>None\<close> exactly when
  the freshly rendered text is the string "Not available", and the rendered text itself in
  every other case.
\<close>

theorem get_text_placeholder:
  assumes "node (data f) = Some nd"
  shows "get_text f =
           (if render (this nd) = str ''Not available'' then Inr None
            else Inr (Some (render (this nd))))"
  using assms
  by (simp add: get_text_def DetailField_node_def truthy_def is_blank_placeholder_def)

theorem get_text_placeholder_witness:
  "get_text (field_of ex_blank_span) = Inr None \<and>
   get_text (field_of ex_value_span) = Inr (Some (str ''Approved''))"
  using get_text_placeholder [of "field_of ex_blank_span" "\<lparr>this = ex_blank_span, parent = None\<rparr>"]
        get_text_placeholder [of "field_of ex_value_span" "\<lparr>this = ex_value_span, parent = None\<rparr>"]
  by (simp add: field_of_def render_ex_blank_span render_ex_value_span str_def)

text \<open>
  C6, as the claim states it, fails: the page that holds only the label span of the slug
  \<open>Status\<close> gives a record with a label and no node, and on that record \<open>get_text()\<close>
  and \<open>get_url()\<close> raise \<open>KeyError\<close>.
\<close>

theorem label_only_counterexample:
  "fst (projr (DetailVisitor_visit ex_label_only)) =
      [\<lparr>data = \<lparr>label = Some (str ''Status''), node = None, url = None\<rparr>\<rparr>] \<and>
   get_text \<lparr>data = \<lparr>label = Some (str ''Status''), node = None, url = None\<rparr>\<rparr>
     = Inl KeyError \<and>
   get_url depth_first \<lparr>data = \<lparr>label = Some (str ''Status''), node = None, url = None\<rparr>\<rparr>
     = Inl KeyError"
  by (simp add: DetailVisitor_visit_def visit_ex_label_only finalize_def get_text_def
        get_url_def DetailField_node_def Let_def)

text \<open>
  C6, amended. On a record that never received a node, \<open>get_text()\<close> and \<open>get_url()\<close>
  fail with the lookup error \<open>KeyError\<close>: the property \<open>node\<close> reads
  \<open>self.data['node']\<close> with no guard.
\<close>

theorem accessors_without_node:
  assumes "node (data f) = None"
  shows "get_text f = Inl KeyError \<and> get_url find_all f = Inl KeyError"
  using assms by (simp add: get_text_def get_url_def DetailField_node_def)

theorem accessors_without_node_witness:
  "node (data \<lparr>data = \<lparr>label = Some (str ''Name''), node = None, url = None\<rparr>\<rparr>) = None \<and>
   get_text \<lparr>data = \<lparr>label = Some (str ''Name''), node = None, url = None\<rparr>\<rparr> = Inl KeyError \<and>
   get_url depth_first \<lparr>data = \<lparr>label = Some (str ''Name''), node = None, url = None\<rparr>\<rparr>
     = Inl KeyError"
  using accessors_without_node
          [of "\<lparr>data = \<lparr>label = Some (str ''Name''), node = None, url = None\<rparr>\<rparr>" depth_first]
  by simp

text \<open>
  C7. For a field whose record has a node, \<open>is_blank()\<close> returns \<open>True\<close> if and only if
  a fresh render of that node is the string "Not available".
\<close>

theorem is_blank_fresh_render:
  assumes "node (data f) = Some nd"
  shows "is_blank f = Inr (Some True) \<longleftrightarrow> render (this nd) = str ''Not available''"
  using assms
  by (simp add: is_blank_def DetailField_text_def DetailField_node_def truthy_def
        is_blank_placeholder_def)

theorem is_blank_fresh_render_witness:
  "is_blank (field_of ex_blank_span) = Inr (Some True) \<and>
   is_blank (field_of ex_value_span) \<noteq> Inr (Some True)"
  using is_blank_fresh_render [of "field_of ex_blank_span" "\<lparr>this = ex_blank_span, parent = None\<rparr>"]
        is_blank_fresh_render [of "field_of ex_value_span" "\<lparr>this = ex_value_span, parent = None\<rparr>"]
  by (simp add: field_of_def render_ex_blank_span render_ex_value_span str_def)

lemma get_mimetype_loop_filter:
  "get_mimetype_loop urlpath cfg (filter P ds) =
     (case filter (\<lambda>d. P d \<and> attr d ''src'' \<noteq> None) ds of
        [] \<Rightarrow> Inr None
      | d # _ \<Rightarrow> if urlpath (the (attr d ''src'')) = MIMETYPE_GIF_PDF cfg
                 then Inr (Some (str ''application/pdf'')) else Inl KeyError)"
  by (induction ds) (auto split: option.splits)

text \<open>
  C8. For a field whose node has a parent, \<open>get_mimetype()\<close> looks at the first node
  among those the parent's \<open>find()\<close> yields that is tagged \<open>img\<close> and has a \<open>src\<close>:
  with no such node it returns \<open>None\<close>; when the path of that node's \<open>src\<close> is the
  configured PDF marker it returns "application/pdf"; for any other path it raises
  \<open>KeyError\<close>.
\<close>

theorem get_mimetype_cases:
  assumes "node (data f) = Some nd" and "parent nd = Some p"
  shows "get_mimetype find_all urlpath cfg f =
     (case filter (\<lambda>d. attr d ''tag'' = Some (str ''img'') \<and> attr d ''src'' \<noteq> None)
             (find_all p) of
        [] \<Rightarrow> Inr None
      | d # _ \<Rightarrow> if urlpath (the (attr d ''src'')) = MIMETYPE_GIF_PDF cfg
                 then Inr (Some (str ''application/pdf'')) else Inl KeyError)"
  using assms by (simp add: get_mimetype_def DetailField_node_def get_mimetype_loop_filter)

theorem get_mimetype_cases_witness:
  "node (data ex_anchor_field) = Some \<lparr>this = ex_anchor, parent = Some ex_cell\<rparr> \<and>
   get_mimetype depth_first (\<lambda>u. u) ex_cfg ex_anchor_field = Inr (Some (str ''application/pdf'')) \<and>
   get_mimetype depth_first (\<lambda>u. u) \<lparr>MIMETYPE_GIF_PDF = str ''/Images/Doc.gif''\<rparr> ex_anchor_field
     = Inl KeyError \<and>
   get_mimetype depth_first (\<lambda>u. u) ex_cfg
     \<lparr>data = \<lparr>label = None, node = Some \<lparr>this = ex_img, parent = Some ex_anchor\<rparr>, url = None\<rparr>\<rparr>
     = Inr None"
  using get_mimetype_cases [of ex_anchor_field "\<lparr>this = ex_anchor, parent = Some ex_cell\<rparr>" ex_cell
                               depth_first "\<lambda>u. u" ex_cfg]
        get_mimetype_cases [of ex_anchor_field "\<lparr>this = ex_anchor, parent = Some ex_cell\<rparr>" ex_cell
                               depth_first "\<lambda>u. u" "\<lparr>MIMETYPE_GIF_PDF = str ''/Images/Doc.gif''\<rparr>"]
        get_mimetype_cases
          [of "\<lparr>data = \<lparr>label = None, node = Some \<lparr>this = ex_img, parent = Some ex_anchor\<rparr>,
                        url = None\<rparr>\<rparr>"
              "\<lparr>this = ex_img, parent = Some ex_anchor\<rparr>" ex_anchor depth_first "\<lambda>u. u" ex_cfg]
  by (simp add: ex_anchor_field_def ex_cell_def ex_anchor_def ex_img_def ex_cfg_def attr_def str_def)

section \<open>The aggregator\<close>

text \<open>
  C10. A span whose identifier matches the label pattern \<open>_lbl(.+?)X\<close> and that has no
  children makes \<open>visit_span\<close> raise \<open>IndexError\<close>, whatever has been accumulated; a
  tree that holds such a span is not aggregated, and the error of the aggregation is this
  \<open>IndexError\<close> when the visits before the span succeed.
\<close>

theorem label_span_without_children:
  assumes "attr (this nd) ''tag'' = Some (str ''span'')"
      and "attr (this nd) ''id'' = Some ident"
      and "search_lblX ident = Some key"
      and "children (this nd) = []"
  shows "visit_span nd vd = Inl IndexError
       \<and> (nd \<in> set (preorder None root) \<longrightarrow> isl (DetailVisitor_visit root))
       \<and> (preorder None root = pre @ nd # post \<and> visit_seq pre [] = Inr vd
            \<longrightarrow> DetailVisitor_visit root = Inl IndexError)"
proof -
  have a: "visit_span nd v = Inl IndexError" for v
    using assms by (simp add: visit_span_def)
  have b: "visit_node nd v = Inl IndexError" for v
    using assms a by (simp add: visit_node_def str_def)
  have "isl (visit_seq (preorder None root) [])" if "nd \<in> set (preorder None root)"
    using that b by (intro visit_seq_fails) simp_all
  then have c: "nd \<in> set (preorder None root) \<longrightarrow> isl (DetailVisitor_visit root)"
    by (auto simp: DetailVisitor_visit_def split: sum.splits)
  have d: "preorder None root = pre @ nd # post \<and> visit_seq pre [] = Inr vd
            \<longrightarrow> DetailVisitor_visit root = Inl IndexError"
    by (simp add: DetailVisitor_visit_def visit_seq_append b)
  show ?thesis using a c d by blast
qed

theorem label_span_without_children_witness:
  "visit_span \<lparr>this = ex_childless_span, parent = Some ex_childless_page\<rparr> [] = Inl IndexError \<and>
   isl (DetailVisitor_visit ex_childless_page) \<and>
   DetailVisitor_visit ex_childless_page = Inl IndexError"
  using label_span_without_children
          [of "\<lparr>this = ex_childless_span, parent = Some ex_childless_page\<rparr>"
              "str ''ctl00_lblStatusX''" "str ''Status''" "[]" ex_childless_page
              "[\<lparr>this = ex_childless_page, parent = None\<rparr>]" "[]"]
  by (simp add: ex_childless_span_def ex_childless_page_def visit_node_def eval_defs)

section \<open>Separating spaces\<close>

lemma generic_visit_leaf:
  "children n = [] \<Longrightarrow>
     buf (generic_visit n r) = (if buf r = [] then fragment n else buf r @ str '' '' @ fragment n)"
  by (cases n) (simp add: fragment_def buf_write_def)

lemma join_space_Cons: "join_space (s # ss) = s @ concat (map (\<lambda>t. str '' '' @ t) ss)"
  by (induction ss arbitrary: s) simp_all

text \<open>
  C3, as the claim states it, fails: in a cell with the three leaf children "a", "" and "c"
  the empty fragment gets a separating space of its own, and the render has two spaces
  between "a" and "c".
\<close>

theorem empty_fragment_counterexample:
  "render ex_gap_page = str ''a  c''"
  by (simp add: ex_gap_page_def leaf_def eval_defs)

text \<open>
  For leaf siblings this reads: into an empty buffer, the fragments from the first non-empty
  one on are joined by single spaces, the empty ones among them included.
\<close>

lemma leaf_siblings_joined:
  assumes "\<forall>n\<in>set ns. children n = []"
  shows "buf (fold generic_visit ns r) =
           (if buf r = [] then join_space (dropWhile (\<lambda>s. s = []) (map fragment ns))
            else buf r @ concat (map (\<lambda>s. str '' '' @ s) (map fragment ns)))"
  using assms
proof (induction ns arbitrary: r)
  case Nil
  then show ?case by simp
next
  case (Cons n ns)
  then have leaf: "children n = []" and rest: "\<forall>n\<in>set ns. children n = []"
    by simp_all
  note step = generic_visit_leaf [OF leaf, of r]
  show ?case
  proof (cases "buf r = []")
    case True
    show ?thesis
    proof (cases "fragment n = []")
      case True
      with \<open>buf r = []\<close> step Cons.IH [OF rest, of "generic_visit n r"] show ?thesis
        by simp
    next
      case False
      with \<open>buf r = []\<close> step Cons.IH [OF rest, of "generic_visit n r"] show ?thesis
        by (simp add: join_space_Cons)
    qed
  next
    case False
    with step Cons.IH [OF rest, of "generic_visit n r"] show ?thesis
      by (simp add: str_def)
  qed
qed

lemma fold_into_content:
  assumes "\<And>c r. c \<in> set cs \<Longrightarrow> buf r \<noteq> [] \<Longrightarrow> buf (generic_visit c r) = buf r @ spaced c"
      and "buf r \<noteq> []"
  shows "buf (fold generic_visit cs r) = buf r @ concat (map spaced cs)"
  using assms
proof (induction cs arbitrary: r)
  case Nil
  then show ?case by simp
next
  case (Cons c cs)
  have step: "buf (generic_visit c r) = buf r @ spaced c"
    using Cons.prems by simp
  with Cons.prems(2) have "buf (generic_visit c r) \<noteq> []" by simp
  with Cons.IH [of "generic_visit c r"] Cons.prems(1) step show ?case
    by simp
qed

lemma visit_into_content:
  "buf r \<noteq> [] \<Longrightarrow> buf (generic_visit n r) = buf r @ spaced n"
proof (induction n arbitrary: r)
  case (Node a cs)
  let ?r2 = "buf_write (scrub_text (get_default (Node a cs) ''text'' [])) (buf_write (str '' '') r)"
  have "buf ?r2 \<noteq> []"
    using Node.prems by (simp add: buf_write_def)
  then have "buf (fold generic_visit cs ?r2) = buf ?r2 @ concat (map spaced cs)"
    using Node.IH by (intro fold_into_content) auto
  with Node.prems show ?case
    by (simp add: buf_write_def)
qed

lemma visit_into_empty: "buf r = [] \<Longrightarrow> buf (generic_visit n r) = render n"
  by (cases r) (simp add: render_def TextRenderer_init_def TextRenderer_finalize_def)

lemma fold_into_empty:
  "buf r = [] \<Longrightarrow>
     buf (fold generic_visit ns r) =
       (case dropWhile (\<lambda>n. render n = []) ns of
          [] \<Rightarrow> []
        | n # rest \<Rightarrow> render n @ concat (map spaced rest))"
proof (induction ns arbitrary: r)
  case Nil
  then show ?case by simp
next
  case (Cons n ns)
  have first: "buf (generic_visit n r) = render n"
    using Cons.prems by (rule visit_into_empty)
  show ?case
  proof (cases "render n = []")
    case True
    with first Cons.IH [of "generic_visit n r"] show ?thesis by simp
  next
    case False
    with first have "buf (generic_visit n r) \<noteq> []" by simp
    then have "buf (fold generic_visit ns (generic_visit n r)) =
                 buf (generic_visit n r) @ concat (map spaced ns)"
      by (intro fold_into_content visit_into_content)
    with first False show ?thesis by simp
  qed
qed

text \<open>
  The render of a node in terms of its children: with scrubbed text of its own the children
  follow it as into a buffer with content; without, they are rendered as into an empty one.
\<close>

lemma render_Node:
  "render (Node a cs) =
     (if scrub_text (get_default (Node a cs) ''text'' []) = []
      then (case dropWhile (\<lambda>n. render n = []) cs of
              [] \<Rightarrow> []
            | n # rest \<Rightarrow> render n @ concat (map spaced rest))
      else scrub_text (get_default (Node a cs) ''text'' []) @ concat (map spaced cs))
     @ scrub_text (get_default (Node a cs) ''tail'' [])"
proof (cases "scrub_text (get_default (Node a cs) ''text'' []) = []")
  case True
  have "render (Node a cs) =
          buf (fold generic_visit cs \<lparr>buf = []\<rparr>) @ scrub_text (get_default (Node a cs) ''tail'' [])"
    using True
    by (simp add: render_def TextRenderer_init_def TextRenderer_finalize_def buf_write_def Let_def)
  with True fold_into_empty [of "\<lparr>buf = []\<rparr>" cs] show ?thesis
    by simp
next
  case False
  then have "buf (fold generic_visit cs \<lparr>buf = scrub_text (get_default (Node a cs) ''text'' [])\<rparr>)
             = scrub_text (get_default (Node a cs) ''text'' []) @ concat (map spaced cs)"
    using fold_into_content [of cs "\<lparr>buf = scrub_text (get_default (Node a cs) ''text'' [])\<rparr>"]
      visit_into_content by simp
  with False show ?thesis
    by (simp add: render_def TextRenderer_init_def TextRenderer_finalize_def buf_write_def Let_def)
qed

text \<open>
  C3, amended. For sibling nodes, with children or without, rendered one after the other
  into one buffer: every visited node, each sibling and each of its descendants, is preceded
  by exactly one space when the buffer holds content at that moment and by none when the
  buffer is empty, whether its own scrubbed text is empty or not, and its tail follows with
  no space. So into a buffer with content every sibling \<open>n\<close> adds \<open>spaced n\<close>; into an
  empty buffer the siblings that render to nothing add nothing, the first other one adds its
  render, and every later one \<open>n\<close> adds \<open>spaced n\<close>. Two non-empty texts visited one
  after the other are one space apart; a node with empty scrubbed text that is visited after
  content adds a space of its own, so double spaces arise around it.
\<close>

theorem siblings_separated:
  "buf (generic_visit n r) = (if buf r = [] then render n else buf r @ spaced n) \<and>
   buf (fold generic_visit ns r) =
     (if buf r = []
      then (case dropWhile (\<lambda>n. render n = []) ns of
              [] \<Rightarrow> []
            | n # rest \<Rightarrow> render n @ concat (map spaced rest))
      else buf r @ concat (map spaced ns))"
proof (cases "buf r = []")
  case True
  then show ?thesis
    by (simp add: visit_into_empty fold_into_empty)
next
  case False
  then have "buf (fold generic_visit ns r) = buf r @ concat (map spaced ns)"
    by (intro fold_into_content visit_into_content)
  with False show ?thesis
    by (simp add: visit_into_content)
qed

theorem siblings_separated_witness:
  "buf (fold generic_visit [leaf ''a'', leaf ''c''] TextRenderer_init) = str ''a c'' \<and>
   buf (fold generic_visit [leaf ''a'', leaf '''', leaf ''c''] TextRenderer_init) = str ''a  c'' \<and>
   buf (fold generic_visit [leaf '''', leaf ''c''] TextRenderer_init) = str ''c'' \<and>
   buf (fold generic_visit [leaf ''a'', ex_wrapper] TextRenderer_init) = str ''a  x'' \<and>
   buf (generic_visit ex_wrapper \<lparr>buf = str ''a''\<rparr>) = str ''a  x''"
  using siblings_separated [of "leaf ''a''" TextRenderer_init "[leaf ''a'', leaf ''c'']"]
        siblings_separated [of "leaf ''a''" TextRenderer_init "[leaf ''a'', leaf '''', leaf ''c'']"]
        siblings_separated [of "leaf ''a''" TextRenderer_init "[leaf '''', leaf ''c'']"]
        siblings_separated [of ex_wrapper "\<lparr>buf = str ''a''\<rparr>" "[leaf ''a'', ex_wrapper]"]
  by (simp add: leaf_def ex_wrapper_def eval_defs)

section \<open>The anchor rule\<close>

lemma lookup_update:
  "lookup (AList.update key d vd) k = (if k = key then d else lookup vd k)"
  by (simp add: lookup_def update_conv')

text \<open>
  C9, as the claim states it, fails: for an anchor whose text is ":Notes" the label is
  "Notes", while the rendered text stripped of surrounding whitespace and of a trailing
  colon is ":Notes".
\<close>

theorem leading_colon_counterexample:
  "visit_a \<lparr>this = ex_colon_anchor, parent = None\<rparr> [] =
     [(str ''Notes'', \<lparr>label = Some (str ''Notes''),
                       node = Some \<lparr>this = ex_colon_anchor, parent = None\<rparr>,
                       url = Some (str ''/notes'')\<rparr>)] \<and>
   strip_trailing_colon (strip (render ex_colon_anchor)) = str '':Notes''"
  by (simp add: visit_a_def lookup_def empty_dict_def strip_trailing_colon_def
        ex_colon_anchor_def eval_defs)

text \<open>
  C9, amended. An anchor that lacks the \<open>id\<close> or the \<open>href\<close>, or whose \<open>id\<close> does not
  match \<open>_hyp(.+)\<close>, leaves the accumulation as it is. For an anchor with both whose \<open>id\<close>
  matches, the record of the slug gets \<open>url\<close> set to the \<open>href\<close> and \<open>node\<close> set to the
  anchor, and, only when the record has no label yet, \<open>label\<close> set to the render of the
  anchor stripped of surrounding whitespace and then of every leading and trailing colon;
  the records of the other slugs are unchanged.
\<close>

theorem visit_a_effect:
  "(attr (this nd) ''id'' = None \<or> attr (this nd) ''href'' = None \<or>
      (\<exists>ident. attr (this nd) ''id'' = Some ident \<and> search_hyp ident = None)
      \<longrightarrow> visit_a nd vd = vd) \<and>
   (attr (this nd') ''id'' = Some ident' \<and> attr (this nd') ''href'' = Some href \<and>
      search_hyp ident' = Some key
      \<longrightarrow> lookup (visit_a nd' vd) key =
            \<lparr>label = (case label (lookup vd key) of
                        None \<Rightarrow> Some (strip_chars (str '':'') (strip (render (this nd'))))
                      | Some l \<Rightarrow> Some l),
             node = Some nd', url = Some href\<rparr>
        \<and> (\<forall>k. k \<noteq> key \<longrightarrow> map_of (visit_a nd' vd) k = map_of vd k))"
  by (auto simp: visit_a_def lookup_update update_conv' Let_def split: option.splits)

theorem visit_a_effect_witness:
  "attr ex_anchor_no_href ''href'' = None \<and>
   visit_a \<lparr>this = ex_anchor_no_href, parent = None\<rparr> ex_old_label = ex_old_label \<and>
   attr ex_anchor ''id'' = Some (str ''ctl00_hypAgenda'') \<and>
   attr ex_anchor ''href'' = Some (str ''/agenda.pdf'') \<and>
   search_hyp (str ''ctl00_hypAgenda'') = Some (str ''Agenda'') \<and>
   lookup (visit_a \<lparr>this = ex_anchor, parent = None\<rparr> []) (str ''Agenda'') =
     \<lparr>label = Some (str ''View Agenda''), node = Some \<lparr>this = ex_anchor, parent = None\<rparr>,
      url = Some (str ''/agenda.pdf'')\<rparr> \<and>
   lookup (visit_a \<lparr>this = ex_anchor, parent = None\<rparr> ex_old_label) (str ''Agenda'') =
     \<lparr>label = Some (str ''Old''), node = Some \<lparr>this = ex_anchor, parent = None\<rparr>,
      url = Some (str ''/agenda.pdf'')\<rparr>"
  using visit_a_effect
          [of "\<lparr>this = ex_anchor_no_href, parent = None\<rparr>" ex_old_label
              "\<lparr>this = ex_anchor, parent = None\<rparr>" "str ''ctl00_hypAgenda''"
              "str ''/agenda.pdf''" "str ''Agenda''"]
        visit_a_effect
          [of "\<lparr>this = ex_anchor_no_href, parent = None\<rparr>" "[]"
              "\<lparr>this = ex_anchor, parent = None\<rparr>" "str ''ctl00_hypAgenda''"
              "str ''/agenda.pdf''" "str ''Agenda''"]
  by (simp add: ex_anchor_no_href_def ex_anchor_def ex_old_label_def lookup_def empty_dict_def
        eval_defs)

section \<open>Accumulation of label and node\<close>

lemma str_eq_iff: "str a = str b \<longleftrightarrow> a = b"
  by (simp add: str_def inj_map_eq_map inj_on_def)

lemma visit_node_sets_node:
  "visit_node nd vd = Inr vd' \<Longrightarrow>
     node (lookup vd' k) = (if sets_node k nd then Some nd else node (lookup vd k))"
  by (auto simp: visit_node_def visit_a_def visit_span_def visit_td_def sets_node_def
        lookup_update Let_def str_eq_iff split: option.splits if_splits list.splits)

lemma visit_node_label_span:
  "visit_node nd vd = Inr vd' \<Longrightarrow> is_label_span k nd \<Longrightarrow>
     label (lookup vd' k) = Some (first_child_label nd)"
  by (auto simp: visit_node_def visit_span_def is_label_span_def first_child_label_def
        get_default_def lookup_update str_eq_iff split: option.splits if_splits list.splits)

lemma visit_node_keeps_label:
  "visit_node nd vd = Inr vd' \<Longrightarrow> \<not> is_label_span k nd \<Longrightarrow> label (lookup vd k) = Some l \<Longrightarrow>
     label (lookup vd' k) = Some l"
  by (auto simp: visit_node_def visit_a_def visit_span_def visit_td_def is_label_span_def
        lookup_update Let_def str_eq_iff split: option.splits if_splits list.splits)

lemma visit_seq_keeps_node:
  "visit_seq nds vd = Inr vd' \<Longrightarrow> \<forall>x\<in>set nds. \<not> sets_node k x \<Longrightarrow>
     node (lookup vd' k) = node (lookup vd k)"
proof (induction nds arbitrary: vd)
  case Nil
  then show ?case by simp
next
  case (Cons x xs)
  then obtain v where v: "visit_node x vd = Inr v" "visit_seq xs v = Inr vd'"
    by (auto split: sum.splits)
  with Cons show ?case
    by (simp add: visit_node_sets_node [OF v(1)])
qed

lemma visit_seq_keeps_label:
  "visit_seq nds vd = Inr vd' \<Longrightarrow> \<forall>x\<in>set nds. \<not> is_label_span k x \<Longrightarrow>
     label (lookup vd k) = Some l \<Longrightarrow> label (lookup vd' k) = Some l"
proof (induction nds arbitrary: vd)
  case Nil
  then show ?case by simp
next
  case (Cons x xs)
  then obtain v where v: "visit_node x vd = Inr v" "visit_seq xs v = Inr vd'"
    by (auto split: sum.splits)
  with Cons.prems have "label (lookup v k) = Some l"
    by (auto intro: visit_node_keeps_label)
  with Cons v show ?case by simp
qed

text \<open>
  C2, as the claim states it, fails: on the cell that holds the anchor \<open>_hypAgenda\<close> before
  the label span \<open>_lblAgendaX\<close>, the anchor sets the label "View Agenda" and the span,
  visited later, overwrites it with "Agenda".
\<close>

theorem label_overwritten_counterexample:
  "visit_seq [\<lparr>this = ex_anchor, parent = Some ex_anchor_first_page\<rparr>] [] =
     Inr [(str ''Agenda'',
           \<lparr>label = Some (str ''View Agenda''),
            node = Some \<lparr>this = ex_anchor, parent = Some ex_anchor_first_page\<rparr>,
            url = Some (str ''/agenda.pdf'')\<rparr>)] \<and>
   visit_seq (preorder None ex_anchor_first_page) [] =
     Inr [(str ''Agenda'',
           \<lparr>label = Some (str ''Agenda''),
            node = Some \<lparr>this = ex_anchor, parent = Some ex_anchor_first_page\<rparr>,
            url = Some (str ''/agenda.pdf'')\<rparr>)]"
  by (simp add: ex_anchor_first_page_def ex_anchor_def ex_agenda_label_def visit_node_def
        visit_a_def visit_span_def visit_td_def Let_def lookup_def empty_dict_def eval_defs)

text \<open>
  C2, amended. Along the visits of a traversal, for every slug: a visit that matches a node
  rule for the slug sets \<open>node\<close> to the visited node whatever it was, and \<open>node\<close> keeps its
  value over the visits that match no node rule for the slug (last writer wins); a span that
  matches the label pattern for the slug sets \<open>label\<close> to the text of its first child
  whatever it was, so it overwrites a label set earlier; every other visit, the anchor rule
  among them, leaves a label that is set as it is.
\<close>

theorem accumulation_asymmetric:
  assumes "visit_node nd vd = Inr vd1" and "visit_seq post vd1 = Inr vd2"
  shows "(sets_node k nd \<longrightarrow> node (lookup vd1 k) = Some nd) \<and>
         ((\<forall>x\<in>set post. \<not> sets_node k x) \<longrightarrow> node (lookup vd2 k) = node (lookup vd1 k)) \<and>
         (is_label_span k nd \<longrightarrow> label (lookup vd1 k) = Some (first_child_label nd)) \<and>
         (label (lookup vd1 k) = Some l \<and> (\<forall>x\<in>set post. \<not> is_label_span k x)
            \<longrightarrow> label (lookup vd2 k) = Some l)"
proof (intro conjI impI)
  show "node (lookup vd1 k) = Some nd" if "sets_node k nd"
    using that assms(1) by (simp add: visit_node_sets_node)
  show "node (lookup vd2 k) = node (lookup vd1 k)" if "\<forall>x\<in>set post. \<not> sets_node k x"
    using that assms(2) by (rule visit_seq_keeps_node [rotated])
  show "label (lookup vd1 k) = Some (first_child_label nd)" if "is_label_span k nd"
    using assms(1) that by (rule visit_node_label_span)
  show "label (lookup vd2 k) = Some l"
    if "label (lookup vd1 k) = Some l \<and> (\<forall>x\<in>set post. \<not> is_label_span k x)"
    using that assms(2) by (auto intro: visit_seq_keeps_label)
qed

theorem accumulation_asymmetric_witness:
  "visit_node \<lparr>this = ex_agenda_label, parent = None\<rparr> ex_old_label = Inr ex_new_label \<and>
   visit_seq [\<lparr>this = ex_anchor, parent = None\<rparr>] ex_new_label = Inr ex_with_anchor \<and>
   is_label_span (str ''Agenda'') \<lparr>this = ex_agenda_label, parent = None\<rparr> \<and>
   label (lookup ex_old_label (str ''Agenda'')) = Some (str ''Old'') \<and>
   label (lookup ex_new_label (str ''Agenda'')) = Some (str ''Agenda'') \<and>
   \<not> is_label_span (str ''Agenda'') \<lparr>this = ex_anchor, parent = None\<rparr> \<and>
   label (lookup ex_with_anchor (str ''Agenda'')) = Some (str ''Agenda'') \<and>
   sets_node (str ''Agenda'') \<lparr>this = ex_anchor, parent = None\<rparr> \<and>
   node (lookup ex_with_anchor (str ''Agenda'')) = Some \<lparr>this = ex_anchor, parent = None\<rparr>"
  using accumulation_asymmetric
          [of "\<lparr>this = ex_agenda_label, parent = None\<rparr>" ex_old_label ex_new_label
              "[\<lparr>this = ex_anchor, parent = None\<rparr>]" ex_with_anchor
              "str ''Agenda''" "str ''Agenda''"]
        accumulation_asymmetric
          [of "\<lparr>this = ex_anchor, parent = None\<rparr>" ex_new_label ex_with_anchor "[]" ex_with_anchor
              "str ''Agenda''" "str ''Agenda''"]
  by (simp add: ex_old_label_def ex_new_label_def ex_with_anchor_def ex_anchor_def
        ex_agenda_label_def visit_node_def visit_a_def visit_span_def Let_def lookup_def
        empty_dict_def sets_node_def is_label_span_def first_child_label_def eval_defs)

section \<open>The keys of the finalized mapping\<close>

lemma finalize_loop_snoc:
  "finalize_loop (items @ [it]) objs m =
     (case finalize_loop items objs m of
        (objs', m') \<Rightarrow>
          (objs' @ [\<lparr>data = snd it\<rparr>],
           \<lambda>k. if written it k then Some (length objs') else m' k))"
proof (induction items arbitrary: objs m)
  case Nil
  show ?case
    by (cases it)
      (auto simp: Let_def written_def alias_of_def fun_eq_iff split: option.splits)
next
  case (Cons x xs)
  show ?case
    by (cases x) (simp add: Let_def Cons.IH)
qed

lemma finalize_loop_objs:
  "fst (finalize_loop items objs m) = objs @ map (\<lambda>item. \<lparr>data = snd item\<rparr>) items"
  by (induction items arbitrary: objs m) (auto simp: Let_def)

lemma finalize_snoc:
  "snd (finalize (vd @ [it])) k = (if written it k then Some (length vd) else snd (finalize vd) k)"
proof -
  obtain objs m where run: "finalize_loop vd [] Map.empty = (objs, m)"
    by (cases "finalize_loop vd [] Map.empty")
  with finalize_loop_objs [of vd "[]" Map.empty] have "length objs = length vd"
    by simp
  with run show ?thesis
    by (simp add: finalize_def finalize_loop_snoc)
qed

lemma finalize_key_iff:
  "snd (finalize vd) k = Some i \<longleftrightarrow>
     i < length vd \<and> written (vd ! i) k \<and> (\<forall>j. i < j \<and> j < length vd \<longrightarrow> \<not> written (vd ! j) k)"
proof (induction vd rule: rev_induct)
  case Nil
  show ?case by (simp add: finalize_def)
next
  case (snoc it vd)
  show ?case
  proof (cases "written it k")
    case True
    have "(\<forall>j. i < j \<and> j < Suc (length vd) \<longrightarrow> \<not> written ((vd @ [it]) ! j) k) \<longleftrightarrow>
          \<not> i < length vd"
      using True by (auto simp: nth_append less_Suc_eq)
    with True show ?thesis
      by (auto simp: finalize_snoc nth_append less_Suc_eq)
  next
    case False
    have "(\<forall>j. i < j \<and> j < Suc (length vd) \<longrightarrow> \<not> written ((vd @ [it]) ! j) k) \<longleftrightarrow>
          (\<forall>j. i < j \<and> j < length vd \<longrightarrow> \<not> written (vd ! j) k)"
      using False by (auto simp: nth_append less_Suc_eq)
    with False snoc show ?thesis
      by (auto simp: finalize_snoc nth_append less_Suc_eq)
  qed
qed

lemma visit_ex_same_label_page:
  "visit_seq (preorder None ex_same_label_page) [] =
     Inr [(str ''Name'', \<lparr>label = Some (str ''Name''), node = None, url = None\<rparr>),
          (str ''Name2'', \<lparr>label = Some (str ''Name''), node = None, url = None\<rparr>)]"
  by (simp add: ex_same_label_page_def visit_node_def visit_span_def lookup_def
        empty_dict_def eval_defs)

text \<open>
  C1, as the claim states it, fails: on a page with two label spans, for the slugs \<open>Name\<close>
  and \<open>Name2\<close>, that both show "Name:", the key "Name" ends on the object of \<open>Name2\<close>, and
  the object of the slug \<open>Name\<close>, the first one created, is under no key of the result.
\<close>

theorem dropped_record_counterexample:
  "fst (projr (DetailVisitor_visit ex_same_label_page)) =
     [\<lparr>data = \<lparr>label = Some (str ''Name''), node = None, url = None\<rparr>\<rparr>,
      \<lparr>data = \<lparr>label = Some (str ''Name''), node = None, url = None\<rparr>\<rparr>] \<and>
   snd (projr (DetailVisitor_visit ex_same_label_page)) (str ''Name'') = Some 1 \<and>
   snd (projr (DetailVisitor_visit ex_same_label_page)) (str ''Name2'') = Some 1 \<and>
   Some 0 \<notin> range (snd (projr (DetailVisitor_visit ex_same_label_page)))"
  by (auto simp: DetailVisitor_visit_def visit_ex_same_label_page finalize_def Let_def
        str_def strip_chars_def strip_with_def split: if_splits)

text \<open>
  C1, amended. \<open>finalize\<close> wraps the record of every slug in one object of its own, in
  iteration order, and the result maps a key to the object of a slug exactly when the key is
  the slug's label-derived key (the label, or the raw slug when no label was set, stripped of
  every leading and trailing colon) or its raw slug, and no slug later in the iteration has
  one of its two keys equal to it. So both keys of a slug that no later slug overwrites map
  to the same object, not to copies, and an object is under at most two keys.
\<close>

theorem finalize_keys:
  "(snd (finalize vd) k = Some i \<longleftrightarrow>
      i < length vd \<and> written (vd ! i) k \<and>
      (\<forall>j. i < j \<and> j < length vd \<longrightarrow> \<not> written (vd ! j) k)) \<and>
   fst (finalize vd) = map (\<lambda>item. \<lparr>data = snd item\<rparr>) vd"
proof
  show "snd (finalize vd) k = Some i \<longleftrightarrow>
      i < length vd \<and> written (vd ! i) k \<and>
      (\<forall>j. i < j \<and> j < length vd \<longrightarrow> \<not> written (vd ! j) k)"
    by (rule finalize_key_iff)
  show "fst (finalize vd) = map (\<lambda>item. \<lparr>data = snd item\<rparr>) vd"
    by (simp add: finalize_def finalize_loop_objs)
qed

theorem finalize_keys_witness:
  "snd (finalize ex_status_items) (str ''Current status'') = Some 0 \<and>
   snd (finalize ex_status_items) (str ''Status'') = Some 0 \<and>
   snd (finalize ex_status_items) (str ''Other'') \<noteq> Some 0 \<and>
   fst (finalize ex_status_items) =
     [\<lparr>data = \<lparr>label = Some (str ''Current status''), node = None, url = None\<rparr>\<rparr>]"
  using finalize_keys [of ex_status_items "str ''Current status''" 0]
        finalize_keys [of ex_status_items "str ''Status''" 0]
        finalize_keys [of ex_status_items "str ''Other''" 0]
  by (auto simp: ex_status_items_def written_def alias_of_def str_def strip_chars_def
        strip_with_def)

end
